theory Spec2Isabelle
  imports Main "HOL-Library.AList"
begin

section \<open>JavaScript values and objects\<close>

text \<open>
  The values that flow through the Toggle component of
  \<^verbatim>\<open>src/exercises-final/12.js\<close>: primitives, plain objects and function values.
  A plain object is an association list in insertion order; a JavaScript object has each
  key once, so an association list stands for an object when its keys are distinct.
  Numbers are restricted to integers. Function values are handles: the three bound
  methods of the component, the arrow \<^verbatim>\<open>() => this.toggle()\<close>, the closure returned
  by \<^verbatim>\<open>callAll\<close> (with the functions it captured), the function-valued props, and
  functions of the owner, which are known by name only.
\<close>

datatype jsval =
    Undefined
  | Null
  | Bool bool
  | Num int
  | Str string
  | Obj "(string \<times> jsval) list"
  | Fn fn
and fn =
    Toggle_toggle
  | Toggle_reset
  | Toggle_getTogglerProps
  | ToggleThunk
  | CallAll "jsval list"
  | PropFn string
  | OwnerFn string

type_synonym obj = "(string \<times> jsval) list"

text \<open>Truthiness, as \<^verbatim>\<open>!on\<close> and \<^verbatim>\<open>fn && fn(...args)\<close> test it.\<close>

fun truthy :: "jsval \<Rightarrow> bool" where
  "truthy Undefined = False"
| "truthy Null = False"
| "truthy (Bool b) = b"
| "truthy (Num n) = (n \<noteq> 0)"
| "truthy (Str s) = (s \<noteq> [])"
| "truthy (Obj _) = True"
| "truthy (Fn _) = True"

text \<open>
  \<^verbatim>\<open>o[k]\<close> on a plain object: a missing key reads as \<^verbatim>\<open>undefined\<close>. The keys read
  are names of state fields and props; the properties every object inherits from
  \<^verbatim>\<open>Object.prototype\<close> are not part of the model.
\<close>

definition js_get :: "obj \<Rightarrow> string \<Rightarrow> jsval" where
  "js_get ob k = (case map_of ob k of None \<Rightarrow> Undefined | Some v \<Rightarrow> v)"

definition hasOwnProperty :: "obj \<Rightarrow> string \<Rightarrow> bool" where
  "hasOwnProperty ob k = (k \<in> set (map fst ob))"

text \<open>
  \<^verbatim>\<open>o[k] = v\<close> is \<^const>\<open>AList.update\<close>: an existing key keeps its place, a new key goes
  last. \<^verbatim>\<open>{...a, ...b}\<close> and \<^verbatim>\<open>Object.assign({}, a, b)\<close> write the entries of
  \<open>b\<close> over \<open>a\<close> in order.
\<close>

definition Object_assign :: "obj \<Rightarrow> obj \<Rightarrow> obj" where
  "Object_assign target source = fold (\<lambda>(k, v) acc. AList.update k v acc) source target"

section \<open>The Toggle component\<close>

text \<open>
  The props of a Toggle. \<open>supplied\<close> is the props object the owner passed, for its
  data-valued entries (\<^verbatim>\<open>on\<close>, \<^verbatim>\<open>initialOn\<close> and whatever else); \<open>reducer\<close> is the
  owner's \<^verbatim>\<open>stateReducer\<close>, \<open>None\<close> when the owner gave none. The three callbacks
  \<^verbatim>\<open>onReset\<close>, \<^verbatim>\<open>onToggle\<close>, \<^verbatim>\<open>onStateChange\<close> are functions of the owner (or the
  default no-op): the component only calls them, and each call is recorded as an event.
\<close>

record props =
  supplied :: obj
  reducer :: "(obj \<Rightarrow> obj \<Rightarrow> obj) option"

datatype event =
    PropCall string "jsval list"
  | OwnerCall string "jsval list"

datatype error = TypeError

text \<open>
  \<^verbatim>\<open>this.props[k]\<close>, after React has filled in \<^verbatim>\<open>defaultProps\<close> (lines 17-23): a
  default replaces a prop that is \<^verbatim>\<open>undefined\<close>. The four function-valued props are
  functions whether the owner gave them or not.
\<close>

definition function_props :: "string list" where
  "function_props = [''onReset'', ''onToggle'', ''onStateChange'', ''stateReducer'']"

definition props_lookup :: "props \<Rightarrow> string \<Rightarrow> jsval" where
  "props_lookup p k =
     (if k \<in> set function_props then Fn (PropFn k)
      else if k = ''initialOn'' \<and> js_get (supplied p) k = Undefined then Bool False
      else js_get (supplied p) k)"

text \<open>\<^verbatim>\<open>this.props.stateReducer\<close>; the default is \<^verbatim>\<open>(state, changes) => changes\<close>.\<close>

definition stateReducer :: "props \<Rightarrow> obj \<Rightarrow> obj \<Rightarrow> obj" where
  "stateReducer p = (case reducer p of None \<Rightarrow> (\<lambda>state changes. changes) | Some r \<Rightarrow> r)"

definition stateChangeTypes_reset :: string where
  "stateChangeTypes_reset = ''__toggle_reset__''"

definition stateChangeTypes_toggle :: string where
  "stateChangeTypes_toggle = ''__toggle_toggle__''"

text \<open>The instance: \<^verbatim>\<open>this.props\<close>, \<^verbatim>\<open>this.state\<close>, \<^verbatim>\<open>this.initialState\<close>.\<close>

record component =
  props :: props
  state :: obj
  initialState :: obj

text \<open>Lines 45-51: the initial state, and the instance as constructed.\<close>

definition initialState_of :: "props \<Rightarrow> obj" where
  "initialState_of p =
     [(''on'', props_lookup p ''initialOn''),
      (''toggle'', Fn Toggle_toggle),
      (''reset'', Fn Toggle_reset),
      (''getTogglerProps'', Fn Toggle_getTogglerProps)]"

definition new_Toggle :: "props \<Rightarrow> component" where
  "new_Toggle p = \<lparr>props = p, state = initialState_of p, initialState = initialState_of p\<rparr>"

text \<open>Lines 52-54.\<close>

definition isControlled :: "props \<Rightarrow> string \<Rightarrow> bool" where
  "isControlled p prop = (props_lookup p prop \<noteq> Undefined)"

text \<open>Lines 55-64: \<^verbatim>\<open>Object.entries(state).reduce(..., {})\<close>.\<close>

definition getState :: "props \<Rightarrow> obj \<Rightarrow> obj" where
  "getState p st =
     fold (\<lambda>(key, value) combinedState.
             if isControlled p key
             then AList.update key (props_lookup p key) combinedState
             else AList.update key value combinedState)
          st []"

text \<open>\<^verbatim>\<open>this.getState()\<close>, with the default argument \<^verbatim>\<open>this.state\<close>.\<close>

definition getState_this :: "component \<Rightarrow> obj" where
  "getState_this t = getState (props t) (state t)"

text \<open>
  Modelled from the spec: \<^verbatim>\<open>setState(updater, callback)\<close> is React's, not the
  repository's. The updater receives the current state; a \<^verbatim>\<open>null\<close> result (\<open>None\<close>)
  leaves the state as it is, any other result is merged into it; the callback then runs
  on the committed state, in both cases. The update is applied at once (no batching).
\<close>

definition setState ::
  "component \<Rightarrow> (obj \<Rightarrow> obj option) \<Rightarrow> (component \<Rightarrow> event list) \<Rightarrow> component \<times> event list"
where
  "setState t updater callback =
     (let t' = (case updater (state t) of
                  None \<Rightarrow> t
                | Some partialState \<Rightarrow> t\<lparr>state := Object_assign (state t) partialState\<rparr>)
      in (t', callback t'))"

text \<open>
  The first argument of \<^verbatim>\<open>internalSetState\<close> is a change record or a function of the
  combined state (line 72 tests \<^verbatim>\<open>typeof c === 'function'\<close>).
\<close>

datatype changes = Literal obj | Updater "obj \<Rightarrow> obj"

text \<open>
  Lines 69-76: the first three \<^verbatim>\<open>map\<close> stages; the result is what line 76 stores in
  \<^verbatim>\<open>allChanges\<close>.
\<close>

definition allChanges_of :: "props \<Rightarrow> obj \<Rightarrow> changes \<Rightarrow> obj" where
  "allChanges_of p st chg =
     (let combinedState = getState p st;
          c = (case chg of Updater f \<Rightarrow> f combinedState | Literal c \<Rightarrow> c)
      in stateReducer p combinedState c)"

text \<open>Lines 78-87: the last \<^verbatim>\<open>map\<close> stage, \<^verbatim>\<open>Object.keys(state).reduce(..., {})\<close>.\<close>

definition removeControlled :: "props \<Rightarrow> obj \<Rightarrow> obj \<Rightarrow> obj \<Rightarrow> obj" where
  "removeControlled p st combinedState c =
     fold (\<lambda>stateKey newChanges.
             if \<not> isControlled p stateKey
             then AList.update stateKey
                    (if hasOwnProperty c stateKey then js_get c stateKey
                     else js_get combinedState stateKey)
                    newChanges
             else newChanges)
          (map fst st) []"

definition stateToSet :: "props \<Rightarrow> obj \<Rightarrow> changes \<Rightarrow> obj" where
  "stateToSet p st chg = removeControlled p st (getState p st) (allChanges_of p st chg)"

text \<open>
  Lines 65-96. The closure variable \<^verbatim>\<open>allChanges\<close> is written by the updater and read
  by the callback; the updater runs on \<^verbatim>\<open>this.state\<close>, so the callback reads
  \<open>allChanges_of\<close> of the state before the update.
\<close>

definition internalSetState ::
  "component \<Rightarrow> changes \<Rightarrow> (component \<Rightarrow> event list) \<Rightarrow> component \<times> event list"
where
  "internalSetState t chg callback =
     setState t
       (\<lambda>st. let s = stateToSet (props t) st chg
             in if length s \<noteq> 0 then Some s else None)
       (\<lambda>t'. PropCall ''onStateChange''
                [Obj (allChanges_of (props t) (state t) chg), Obj (state t')]
              # callback t')"

text \<open>
  Lines 35-39. The argument is an options object, \<open>None\<close> for a call without argument;
  \<^verbatim>\<open>{type = Toggle.stateChangeTypes.toggle} = {}\<close> takes the default for a missing or
  \<^verbatim>\<open>undefined\<close> type.
\<close>

definition toggle_type :: "obj option \<Rightarrow> jsval" where
  "toggle_type arg =
     (case arg of
        None \<Rightarrow> Str stateChangeTypes_toggle
      | Some a \<Rightarrow> if js_get a ''type'' = Undefined then Str stateChangeTypes_toggle
                  else js_get a ''type'')"

text \<open>Line 37: the arrow \<^verbatim>\<open>({on}) => ({type, on: !on})\<close>.\<close>

definition toggle_changes :: "obj option \<Rightarrow> changes" where
  "toggle_changes arg =
     Updater (\<lambda>combinedState.
       [(''type'', toggle_type arg), (''on'', Bool (\<not> truthy (js_get combinedState ''on'')))])"

definition toggle :: "component \<Rightarrow> obj option \<Rightarrow> component \<times> event list" where
  "toggle t arg =
     internalSetState t (toggle_changes arg)
       (\<lambda>t'. [PropCall ''onToggle'' [js_get (getState_this t') ''on'']])"

text \<open>
  Lines 30-34. Line 32: the record \<^verbatim>\<open>{...this.initialState, type: Toggle.stateChangeTypes.reset}\<close>.
\<close>

definition reset_changes :: "component \<Rightarrow> changes" where
  "reset_changes t =
     Literal (AList.update ''type'' (Str stateChangeTypes_reset)
                (Object_assign [] (initialState t)))"

definition reset :: "component \<Rightarrow> component \<times> event list" where
  "reset t =
     internalSetState t (reset_changes t)
       (\<lambda>t'. [PropCall ''onReset'' [js_get (getState_this t') ''on'']])"


text \<open>
  Calling a function value with arguments, for its effect on the component and the calls
  it makes to the owner. Line 14, \<^verbatim>\<open>callAll\<close>: \<^verbatim>\<open>fns.forEach(fn => fn && fn(...args))\<close>
  skips a falsy entry, calls a function, and throws on any other truthy value. The bound
  \<^verbatim>\<open>toggle\<close> and \<^verbatim>\<open>getTogglerProps\<close> destructure their first argument:
  \<^verbatim>\<open>undefined\<close> takes the default \<^verbatim>\<open>{}\<close>, \<^verbatim>\<open>null\<close> throws, and a primitive or a
  function has no \<^verbatim>\<open>type\<close>. The value a call returns is dropped by \<^verbatim>\<open>forEach\<close>.
\<close>

definition options_arg :: "jsval list \<Rightarrow> error + obj option" where
  "options_arg args =
     (case args of
        [] \<Rightarrow> Inr None
      | Undefined # _ \<Rightarrow> Inr None
      | Null # _ \<Rightarrow> Inl TypeError
      | Obj a # _ \<Rightarrow> Inr (Some a)
      | _ # _ \<Rightarrow> Inr (Some []))"

fun call :: "component \<Rightarrow> fn \<Rightarrow> jsval list \<Rightarrow> error + component \<times> event list"
and forEach_call :: "component \<Rightarrow> jsval list \<Rightarrow> jsval list \<Rightarrow> error + component \<times> event list"
where
  "call t Toggle_toggle args =
     (case options_arg args of Inl e \<Rightarrow> Inl e | Inr a \<Rightarrow> Inr (toggle t a))"
| "call t Toggle_reset args = Inr (reset t)"
| "call t Toggle_getTogglerProps args =
     (case options_arg args of Inl e \<Rightarrow> Inl e | Inr a \<Rightarrow> Inr (t, []))"
| "call t ToggleThunk args = Inr (toggle t None)"
| "call t (CallAll fns) args = forEach_call t fns args"
| "call t (PropFn k) args = Inr (t, [PropCall k args])"
| "call t (OwnerFn f) args = Inr (t, [OwnerCall f args])"
| "forEach_call t [] args = Inr (t, [])"
| "forEach_call t (f # fns) args =
     (if truthy f
      then (case f of
              Fn g \<Rightarrow>
                (case call t g args of
                   Inl e \<Rightarrow> Inl e
                 | Inr (t', evs) \<Rightarrow>
                     (case forEach_call t' fns args of
                        Inl e \<Rightarrow> Inl e
                      | Inr (t'', evs') \<Rightarrow> Inr (t'', evs @ evs')))
            | _ \<Rightarrow> Inl TypeError)
      else forEach_call t fns args)"

text \<open>
  The Toggle of the provider-pattern file (\<^verbatim>\<open>src/unnamed/part_000\<close>, lines 15-102) has
  the same \<^verbatim>\<open>defaultProps\<close>, \<^verbatim>\<open>isControlled\<close>, \<^verbatim>\<open>getState\<close> and
  \<^verbatim>\<open>internalSetState\<close>, line for line; its \<^verbatim>\<open>reset\<close> and \<^verbatim>\<open>toggle\<close> (lines 28-37)
  hand \<^verbatim>\<open>this.getState()\<close> to the callback, where 12.js hands \<^verbatim>\<open>this.getState().on\<close>.
\<close>

definition toggle_part_000 :: "component \<Rightarrow> obj option \<Rightarrow> component \<times> event list" where
  "toggle_part_000 t arg =
     internalSetState t (toggle_changes arg)
       (\<lambda>t'. [PropCall ''onToggle'' [Obj (getState_this t')]])"

definition reset_part_000 :: "component \<Rightarrow> component \<times> event list" where
  "reset_part_000 t =
     internalSetState t (reset_changes t)
       (\<lambda>t'. [PropCall ''onReset'' [Obj (getState_this t')]])"

section \<open>Sequences of operations\<close>

text \<open>
  The state is mutated only through \<^verbatim>\<open>toggle\<close> and \<^verbatim>\<open>reset\<close>. A run applies a list
  of such calls in order, with the props held fixed, and collects the events.
\<close>

datatype op = ToggleOp "obj option" | ResetOp

fun apply_op :: "component \<Rightarrow> op \<Rightarrow> component \<times> event list" where
  "apply_op t (ToggleOp arg) = toggle t arg"
| "apply_op t ResetOp = reset t"

fun run :: "component \<Rightarrow> op list \<Rightarrow> component \<times> event list" where
  "run t [] = (t, [])"
| "run t (x # xs) =
     (case apply_op t x of (t', evs) \<Rightarrow> (case run t' xs of (t'', evs') \<Rightarrow> (t'', evs @ evs')))"

text \<open>An association list stands for a JavaScript object when no key occurs twice.\<close>

definition is_object :: "obj \<Rightarrow> bool" where
  "is_object ob = distinct (map fst ob)"

fun is_onStateChange :: "event \<Rightarrow> bool" where
  "is_onStateChange (PropCall k args) = (k = ''onStateChange'')"
| "is_onStateChange (OwnerCall f args) = False"

section \<open>Example configurations\<close>

definition default_props :: props where
  "default_props = \<lparr>supplied = [], reducer = None\<rparr>"

definition on_true_props :: props where
  "on_true_props = \<lparr>supplied = [(''on'', Bool True)], reducer = None\<rparr>"

definition on_false_props :: props where
  "on_false_props = \<lparr>supplied = [(''on'', Bool False)], reducer = None\<rparr>"


text \<open>Every field of the state is supplied by the owner: the write set is empty.\<close>

definition all_controlled_props :: props where
  "all_controlled_props =
     \<lparr>supplied = [(''on'', Bool True), (''toggle'', Null), (''reset'', Null),
                  (''getTogglerProps'', Null)],
      reducer = None\<rparr>"

text \<open>The reducer \<^verbatim>\<open>(state, changes) => ({on: true, type: changes.type})\<close>.\<close>

definition always_on_reducer :: "obj \<Rightarrow> obj \<Rightarrow> obj" where
  "always_on_reducer st chg = [(''on'', Bool True), (''type'', js_get chg ''type'')]"

definition always_on_props :: props where
  "always_on_props = \<lparr>supplied = [], reducer = Some always_on_reducer\<rparr>"

text \<open>The same reducer, with \<^verbatim>\<open>on\<close> controlled at \<^verbatim>\<open>true\<close>.\<close>

definition on_true_always_on_props :: props where
  "on_true_always_on_props = \<lparr>supplied = [(''on'', Bool True)], reducer = Some always_on_reducer\<rparr>"

text \<open>The owner passes \<^verbatim>\<open>on: undefined\<close> explicitly.\<close>

definition on_undefined_props :: props where
  "on_undefined_props = \<lparr>supplied = [(''on'', Undefined)], reducer = None\<rparr>"

text \<open>A reducer that discards the proposed change: \<^verbatim>\<open>(state, changes) => ({})\<close>.\<close>

definition discarding_props :: props where
  "discarding_props = \<lparr>supplied = [], reducer = Some (\<lambda>st chg. [])\<rparr>"

section \<open>Association lists under update\<close>

lemma map_of_rev_distinct: "distinct (map fst xs) \<Longrightarrow> map_of (rev xs) = map_of xs"
proof -
  assume d: "distinct (map fst xs)"
  then have "distinct (map fst (rev xs))" by (simp add: rev_map [symmetric])
  with d show ?thesis by (simp add: map_of_inject_set)
qed

lemma js_get_rev_distinct: "distinct (map fst xs) \<Longrightarrow> js_get (rev xs) k = js_get xs k"
  by (simp add: js_get_def map_of_rev_distinct)

lemma map_of_fold_update:
  "map_of (fold (\<lambda>(k, v) acc. AList.update k (g k v) acc) xs acc0) k =
     (case map_of (rev xs) k of Some v \<Rightarrow> Some (g k v) | None \<Rightarrow> map_of acc0 k)"
proof (induction xs arbitrary: acc0)
  case Nil
  show ?case by simp
next
  case (Cons x xs)
  obtain a b where x: "x = (a, b)" by (cases x)
  show ?case
    by (simp add: x Cons.IH AList.update_conv' map_add_def split: option.splits)
qed

lemma keys_fold_update_subset:
  "set (map fst xs) \<subseteq> set (map fst acc0) \<Longrightarrow>
   map fst (fold (\<lambda>(k, v) acc. AList.update k (g k v) acc) xs acc0) = map fst acc0"
proof (induction xs arbitrary: acc0)
  case Nil
  show ?case by simp
next
  case (Cons x xs)
  obtain a b where x: "x = (a, b)" by (cases x)
  have k: "map fst (AList.update a (g a b) acc0) = map fst acc0"
    using Cons.prems by (simp add: x AList.update_keys)
  show ?case
    using Cons.prems by (simp add: x Cons.IH k)
qed

lemma distinct_fold_update:
  "distinct (map fst acc0) \<Longrightarrow>
   distinct (map fst (fold (\<lambda>(k, v) acc. AList.update k (g k v) acc) xs acc0))"
  by (induction xs arbitrary: acc0) (auto simp: AList.distinct_update)

lemma map_of_fold_cond_update:
  "map_of (fold (\<lambda>k acc. if q k then AList.update k (h k) acc else acc) ks acc0) k =
     (if k \<in> set ks \<and> q k then Some (h k) else map_of acc0 k)"
  by (induction ks arbitrary: acc0) (auto simp: AList.update_conv')

lemma distinct_fold_cond_update:
  "distinct (map fst acc0) \<Longrightarrow>
   distinct (map fst (fold (\<lambda>k acc. if q k then AList.update k (h k) acc else acc) ks acc0))"
  by (induction ks arbitrary: acc0) (auto simp: AList.distinct_update)

lemma keys_fold_cond_update:
  "distinct ks \<Longrightarrow> set ks \<inter> set (map fst acc0) = {} \<Longrightarrow>
   map fst (fold (\<lambda>k acc. if q k then AList.update k (h k) acc else acc) ks acc0) =
     map fst acc0 @ filter q ks"
proof (induction ks arbitrary: acc0)
  case Nil
  show ?case by simp
next
  case (Cons a ks)
  show ?case
  proof (cases "q a")
    case True
    have "map fst (AList.update a (h a) acc0) = map fst acc0 @ [a]"
      using Cons.prems by (simp add: AList.update_keys)
    moreover have "set ks \<inter> set (map fst (AList.update a (h a) acc0)) = {}"
      using Cons.prems by (auto simp: AList.update_keys)
    ultimately show ?thesis
      using Cons.prems True by (simp add: Cons.IH)
  next
    case False
    then show ?thesis using Cons.prems by (simp add: Cons.IH)
  qed
qed

subsection \<open>Object_assign\<close>

lemma Object_assign_lookup:
  "map_of (Object_assign target source) k =
     (case map_of (rev source) k of Some v \<Rightarrow> Some v | None \<Rightarrow> map_of target k)"
  unfolding Object_assign_def by (rule map_of_fold_update [where g = "\<lambda>k v. v"])

lemma Object_assign_keys:
  "set (map fst source) \<subseteq> set (map fst target) \<Longrightarrow>
   map fst (Object_assign target source) = map fst target"
  unfolding Object_assign_def by (rule keys_fold_update_subset [where g = "\<lambda>k v. v"])

lemma Object_assign_distinct:
  "distinct (map fst target) \<Longrightarrow> distinct (map fst (Object_assign target source))"
  unfolding Object_assign_def by (rule distinct_fold_update [where g = "\<lambda>k v. v"])

subsection \<open>getState\<close>

lemma getState_fold:
  "getState p st =
     fold (\<lambda>(k, v) acc. AList.update k (if isControlled p k then props_lookup p k else v) acc) st []"
proof -
  have "(\<lambda>(key, value) combinedState.
             if isControlled p key
             then AList.update key (props_lookup p key) combinedState
             else AList.update key value combinedState) =
        (\<lambda>(k, v) acc. AList.update k (if isControlled p k then props_lookup p k else v) acc)"
    by (auto simp: fun_eq_iff)
  then show ?thesis by (simp add: getState_def)
qed

lemma getState_lookup:
  "map_of (getState p st) k =
     (case map_of (rev st) k of
        Some v \<Rightarrow> Some (if isControlled p k then props_lookup p k else v)
      | None \<Rightarrow> None)"
  by (simp add: getState_fold map_of_fold_update split: option.splits)

lemma in_keys_rev: "k \<in> set (map fst st) \<Longrightarrow> \<exists>v. map_of (rev st) k = Some v"
proof -
  assume "k \<in> set (map fst st)"
  then have "k \<in> fst ` set (rev st)" by simp
  then have "k \<in> dom (map_of (rev st))" by (simp only: dom_map_of_conv_image_fst)
  then show ?thesis by blast
qed

lemma getState_controlled:
  "k \<in> set (map fst st) \<Longrightarrow> isControlled p k \<Longrightarrow> js_get (getState p st) k = props_lookup p k"
  using in_keys_rev [of k st] by (auto simp: js_get_def getState_lookup)

lemma getState_uncontrolled:
  "distinct (map fst st) \<Longrightarrow> \<not> isControlled p k \<Longrightarrow> js_get (getState p st) k = js_get st k"
  by (simp add: js_get_def getState_lookup map_of_rev_distinct split: option.splits)

lemma getState_distinct: "distinct (map fst (getState p st))"
  by (simp add: getState_fold distinct_fold_update)

lemma getState_key_set: "set (map fst (getState p st)) = set (map fst st)"
proof -
  have "dom (map_of (getState p st)) = dom (map_of (rev st))"
    by (auto simp: getState_lookup split: option.splits)
  then show ?thesis by (simp add: dom_map_of_conv_image_fst)
qed

subsection \<open>removeControlled\<close>

lemma removeControlled_lookup:
  "map_of (removeControlled p st cs c) k =
     (if k \<in> set (map fst st) \<and> \<not> isControlled p k
      then Some (if hasOwnProperty c k then js_get c k else js_get cs k)
      else None)"
  unfolding removeControlled_def
  by (simp add: map_of_fold_cond_update
        [where q = "\<lambda>k. \<not> isControlled p k"
           and h = "\<lambda>k. if hasOwnProperty c k then js_get c k else js_get cs k"])

lemma removeControlled_distinct: "distinct (map fst (removeControlled p st cs c))"
  unfolding removeControlled_def
  by (rule distinct_fold_cond_update
        [where q = "\<lambda>k. \<not> isControlled p k"
           and h = "\<lambda>k. if hasOwnProperty c k then js_get c k else js_get cs k"]) simp

lemma removeControlled_keys:
  "distinct (map fst st) \<Longrightarrow>
   map fst (removeControlled p st cs c) = filter (\<lambda>k. \<not> isControlled p k) (map fst st)"
  unfolding removeControlled_def
  using keys_fold_cond_update
        [where q = "\<lambda>k. \<not> isControlled p k"
           and h = "\<lambda>k. if hasOwnProperty c k then js_get c k else js_get cs k"
           and ks = "map fst st" and ?acc0.0 = "[]"]
  by simp

lemma removeControlled_key_set:
  "set (map fst (removeControlled p st cs c)) = {k \<in> set (map fst st). \<not> isControlled p k}"
proof -
  have "dom (map_of (removeControlled p st cs c)) = {k. k \<in> set (map fst st) \<and> \<not> isControlled p k}"
    by (simp add: dom_def removeControlled_lookup)
  then show ?thesis by (simp add: dom_map_of_conv_image_fst)
qed

section \<open>The apply pipeline\<close>

lemma internalSetState_fst:
  "fst (internalSetState t chg cb) =
     (if stateToSet (props t) (state t) chg \<noteq> []
      then t\<lparr>state := Object_assign (state t) (stateToSet (props t) (state t) chg)\<rparr>
      else t)"
  by (simp add: internalSetState_def setState_def Let_def)

lemma internalSetState_snd:
  "snd (internalSetState t chg cb) =
     PropCall ''onStateChange''
       [Obj (allChanges_of (props t) (state t) chg), Obj (state (fst (internalSetState t chg cb)))]
     # cb (fst (internalSetState t chg cb))"
  by (simp add: internalSetState_def setState_def Let_def)

lemma internalSetState_props: "props (fst (internalSetState t chg cb)) = props t"
  by (simp add: internalSetState_fst)

lemma internalSetState_initialState:
  "initialState (fst (internalSetState t chg cb)) = initialState t"
  by (simp add: internalSetState_fst)

lemma internalSetState_keys:
  "map fst (state (fst (internalSetState t chg cb))) = map fst (state t)"
proof -
  have "set (map fst (stateToSet (props t) (state t) chg)) \<subseteq> set (map fst (state t))"
    unfolding stateToSet_def removeControlled_key_set by blast
  then show ?thesis
    by (simp add: internalSetState_fst Object_assign_keys)
qed

lemma stateToSet_lookup:
  "map_of (stateToSet p st chg) k =
     (if k \<in> set (map fst st) \<and> \<not> isControlled p k
      then Some (if hasOwnProperty (allChanges_of p st chg) k
                 then js_get (allChanges_of p st chg) k
                 else js_get (getState p st) k)
      else None)"
  by (simp add: stateToSet_def removeControlled_lookup)

lemma internalSetState_lookup:
  "map_of (state (fst (internalSetState t chg cb))) k =
     (if k \<in> set (map fst (state t)) \<and> \<not> isControlled (props t) k
      then Some (if hasOwnProperty (allChanges_of (props t) (state t) chg) k
                 then js_get (allChanges_of (props t) (state t) chg) k
                 else js_get (getState (props t) (state t)) k)
      else map_of (state t) k)"
proof (cases "stateToSet (props t) (state t) chg = []")
  case True
  then have "map_of (stateToSet (props t) (state t) chg) k = None" by simp
  then have "\<not> (k \<in> set (map fst (state t)) \<and> \<not> isControlled (props t) k)"
    by (simp add: stateToSet_lookup split: if_splits)
  with True show ?thesis by (auto simp: internalSetState_fst)
next
  case False
  have d: "distinct (map fst (stateToSet (props t) (state t) chg))"
    by (simp add: stateToSet_def removeControlled_distinct)
  show ?thesis
    using False
    by (simp add: internalSetState_fst Object_assign_lookup map_of_rev_distinct [OF d]
          stateToSet_lookup)
qed

lemma internalSetState_controlled_kept:
  "isControlled (props t) k \<Longrightarrow>
   map_of (state (fst (internalSetState t chg cb))) k = map_of (state t) k"
  by (simp add: internalSetState_lookup)

lemma internalSetState_uncontrolled:
  "k \<in> set (map fst (state t)) \<Longrightarrow> \<not> isControlled (props t) k \<Longrightarrow>
   js_get (state (fst (internalSetState t chg cb))) k =
     (if hasOwnProperty (allChanges_of (props t) (state t) chg) k
      then js_get (allChanges_of (props t) (state t) chg) k
      else js_get (getState (props t) (state t)) k)"
  by (simp add: js_get_def internalSetState_lookup)

lemma apply_op_props: "props (fst (apply_op t x)) = props t"
  by (cases x) (simp_all add: toggle_def reset_def internalSetState_props)

lemma apply_op_initialState: "initialState (fst (apply_op t x)) = initialState t"
  by (cases x) (simp_all add: toggle_def reset_def internalSetState_initialState)

lemma apply_op_keys: "map fst (state (fst (apply_op t x))) = map fst (state t)"
  by (cases x) (simp_all add: toggle_def reset_def internalSetState_keys)

lemma run_props: "props (fst (run t xs)) = props t"
proof (induction xs arbitrary: t)
  case Nil
  show ?case by simp
next
  case (Cons x xs)
  obtain t' evs where a: "apply_op t x = (t', evs)" by (cases "apply_op t x")
  have "props t' = props t" using apply_op_props [of t x] by (simp add: a)
  with Cons.IH [of t'] show ?case by (simp add: a case_prod_beta)
qed

lemma run_initialState: "initialState (fst (run t xs)) = initialState t"
proof (induction xs arbitrary: t)
  case Nil
  show ?case by simp
next
  case (Cons x xs)
  obtain t' evs where a: "apply_op t x = (t', evs)" by (cases "apply_op t x")
  have "initialState t' = initialState t" using apply_op_initialState [of t x] by (simp add: a)
  with Cons.IH [of t'] show ?case by (simp add: a case_prod_beta)
qed

lemma run_keys: "map fst (state (fst (run t xs))) = map fst (state t)"
proof (induction xs arbitrary: t)
  case Nil
  show ?case by simp
next
  case (Cons x xs)
  obtain t' evs where a: "apply_op t x = (t', evs)" by (cases "apply_op t x")
  have "map fst (state t') = map fst (state t)" using apply_op_keys [of t x] by (simp add: a)
  with Cons.IH [of t'] show ?case by (simp add: a case_prod_beta)
qed

lemma run_append:
  "run t (xs @ ys) =
     (case run t xs of (t', evs) \<Rightarrow> (case run t' ys of (t'', evs') \<Rightarrow> (t'', evs @ evs')))"
  by (induction xs arbitrary: t) (auto split: prod.splits)

lemma state_field_lookup:
  "k \<in> set (map fst (initialState_of p)) \<Longrightarrow> props_lookup p k = js_get (supplied p) k"
  by (auto simp: initialState_of_def props_lookup_def function_props_def)

section \<open>Claims\<close>

text \<open>
  C1. A field of the state for which the owner has supplied a value is read through
  \<^verbatim>\<open>getState\<close> as the owner's value, whatever the state object holds for it; and on a
  Toggle constructed with such props the read gives the owner's value after any sequence
  of \<^verbatim>\<open>toggle\<close> and \<^verbatim>\<open>reset\<close> calls. With \<open>k = ''on''\<close> and \<open>v = Bool True\<close>:
  \<^verbatim>\<open>getState().on\<close> is always \<^verbatim>\<open>true\<close>.
\<close>

theorem getState_controlled_reads_owner:
  assumes "k \<in> set (map fst (initialState_of p))"
    and "js_get (supplied p) k = v" and "v \<noteq> Undefined"
  shows "(k \<in> set (map fst st) \<longrightarrow> js_get (getState p st) k = v) \<and>
         js_get (getState_this (fst (run (new_Toggle p) ops))) k = v"
proof -
  have lk: "props_lookup p k = v"
    using assms by (simp add: state_field_lookup)
  then have c: "isControlled p k"
    using assms by (simp add: isControlled_def)
  have a: "k \<in> set (map fst st) \<longrightarrow> js_get (getState p st) k = v"
    using c lk by (simp add: getState_controlled)
  have pr: "props (fst (run (new_Toggle p) ops)) = p"
    by (simp add: run_props new_Toggle_def)
  have "map fst (state (fst (run (new_Toggle p) ops))) = map fst (initialState_of p)"
    by (simp add: run_keys new_Toggle_def)
  then have "k \<in> set (map fst (state (fst (run (new_Toggle p) ops))))"
    using assms(1) by simp
  then have b: "js_get (getState_this (fst (run (new_Toggle p) ops))) k = v"
    using c lk by (simp add: getState_this_def pr getState_controlled)
  from a b show ?thesis by simp
qed

theorem getState_controlled_reads_owner_witness:
  "js_get (getState_this
     (fst (run (new_Toggle on_true_props) [ToggleOp None, ResetOp, ToggleOp None]))) ''on'' = Bool True"
proof -
  have 1: "''on'' \<in> set (map fst (initialState_of on_true_props))"
    by (simp add: initialState_of_def)
  have 2: "js_get (supplied on_true_props) ''on'' = Bool True"
    by (simp add: on_true_props_def js_get_def)
  have 3: "Bool True \<noteq> Undefined" by simp
  show ?thesis
    using getState_controlled_reads_owner [OF 1 2 3, of "[]" "[ToggleOp None, ResetOp, ToggleOp None]"]
    by simp
qed

text \<open>
  C6. Every \<^verbatim>\<open>toggle\<close> and every \<^verbatim>\<open>reset\<close> calls \<^verbatim>\<open>onStateChange\<close> exactly once,
  after the state update and before \<^verbatim>\<open>onToggle\<close>; nothing is assumed about the write
  set, so the call is made when the write set is empty and the state stays as it was
  (the witness is a Toggle whose four fields are all controlled).
\<close>

theorem onStateChange_once:
  "snd (toggle t arg) =
     [PropCall ''onStateChange''
        [Obj (allChanges_of (props t) (state t) (toggle_changes arg)),
         Obj (state (fst (toggle t arg)))],
      PropCall ''onToggle'' [js_get (getState_this (fst (toggle t arg))) ''on'']]
   \<and> length (filter is_onStateChange (snd (toggle t arg))) = 1
   \<and> length (filter is_onStateChange (snd (reset t))) = 1"
  by (simp add: toggle_def reset_def internalSetState_snd)

theorem onStateChange_once_witness:
  "stateToSet all_controlled_props (state (new_Toggle all_controlled_props))
      (toggle_changes None) = []
   \<and> state (fst (toggle (new_Toggle all_controlled_props) None)) = state (new_Toggle all_controlled_props)
   \<and> length (filter is_onStateChange (snd (toggle (new_Toggle all_controlled_props) None))) = 1
   \<and> length (filter is_onStateChange (snd (reset (new_Toggle all_controlled_props)))) = 1"
proof -
  have c: "\<And>k. k \<in> set [''on'', ''toggle'', ''reset'', ''getTogglerProps''] \<Longrightarrow>
             isControlled all_controlled_props k"
    by (auto simp: isControlled_def props_lookup_def all_controlled_props_def js_get_def
          function_props_def)
  have e: "stateToSet all_controlled_props (initialState_of all_controlled_props)
      (toggle_changes None) = []"
    by (simp add: stateToSet_def removeControlled_def initialState_of_def c)
  have s: "state (fst (toggle (new_Toggle all_controlled_props) None)) =
        state (new_Toggle all_controlled_props)"
    by (simp add: toggle_def internalSetState_fst e new_Toggle_def)
  show ?thesis
    using onStateChange_once [of "new_Toggle all_controlled_props" None] e s
    by (simp add: new_Toggle_def)
qed

subsection \<open>Steps of toggle and reset on an uncontrolled field\<close>

lemma allChanges_of_toggle_default:
  "reducer p = None \<Longrightarrow>
   allChanges_of p st (toggle_changes arg) =
     [(''type'', toggle_type arg), (''on'', Bool (\<not> truthy (js_get (getState p st) ''on'')))]"
  by (simp add: allChanges_of_def toggle_changes_def stateReducer_def)

lemma allChanges_of_reset_default:
  "reducer (props t) = None \<Longrightarrow>
   allChanges_of (props t) st (reset_changes t) =
     AList.update ''type'' (Str stateChangeTypes_reset) (Object_assign [] (initialState t))"
  by (simp add: allChanges_of_def reset_changes_def stateReducer_def)

lemma js_get_Cons: "js_get ((a, v) # ob) k = (if k = a then v else js_get ob k)"
  by (simp add: js_get_def)

lemma hasOwnProperty_Cons: "hasOwnProperty ((a, v) # ob) k = (k = a \<or> hasOwnProperty ob k)"
  by (auto simp: hasOwnProperty_def)

lemma toggle_on_step:
  assumes "is_object (state t)" and "''on'' \<in> set (map fst (state t))"
    and "\<not> isControlled (props t) ''on''" and "reducer (props t) = None"
  shows "js_get (state (fst (toggle t arg))) ''on'' = Bool (\<not> truthy (js_get (state t) ''on''))"
proof -
  have "js_get (getState (props t) (state t)) ''on'' = js_get (state t) ''on''"
    using assms(1,3) by (simp add: getState_uncontrolled is_object_def)
  then show ?thesis
    using assms(2,3,4)
    by (simp add: toggle_def internalSetState_uncontrolled allChanges_of_toggle_default
          hasOwnProperty_Cons js_get_Cons)
qed

lemma spread_lookup:
  "is_object ob \<Longrightarrow> k \<noteq> ''type'' \<Longrightarrow>
   map_of (AList.update ''type'' v (Object_assign [] ob)) k = map_of ob k"
  by (simp add: AList.update_conv' Object_assign_lookup is_object_def map_of_rev_distinct
        split: option.splits)

lemma hasOwnProperty_lookup: "hasOwnProperty ob k = (map_of ob k \<noteq> None)"
proof -
  have "hasOwnProperty ob k = (k \<in> dom (map_of ob))"
    by (simp add: hasOwnProperty_def dom_map_of_conv_image_fst)
  then show ?thesis by (simp add: dom_def)
qed

lemma spread_has:
  assumes "k \<in> set (map fst ob)"
  shows "hasOwnProperty (AList.update ''type'' v (Object_assign [] ob)) k"
proof -
  from in_keys_rev [OF assms] obtain w where "map_of (rev ob) k = Some w" ..
  then show ?thesis
    by (simp add: hasOwnProperty_lookup AList.update_conv' Object_assign_lookup)
qed

lemma reset_on_step:
  assumes "''on'' \<in> set (map fst (state t))" and "\<not> isControlled (props t) ''on''"
    and "reducer (props t) = None"
    and "is_object (initialState t)" and "''on'' \<in> set (map fst (initialState t))"
  shows "js_get (state (fst (reset t))) ''on'' = js_get (initialState t) ''on''"
proof -
  have h: "hasOwnProperty (AList.update ''type'' (Str stateChangeTypes_reset)
             (Object_assign [] (initialState t))) ''on''"
    using assms(5) by (rule spread_has)
  have g: "js_get (AList.update ''type'' (Str stateChangeTypes_reset)
             (Object_assign [] (initialState t))) ''on'' = js_get (initialState t) ''on''"
    using assms(4) by (simp add: js_get_def spread_lookup)
  show ?thesis
    using assms(1,2,3) h g
    by (simp add: reset_def internalSetState_uncontrolled allChanges_of_reset_default)
qed

lemma toggle_is_object: "is_object (state t) \<Longrightarrow> is_object (state (fst (apply_op t x)))"
  by (simp add: is_object_def apply_op_keys)

lemma run_toggles_on:
  assumes "\<not> isControlled (props t) ''on''" and "reducer (props t) = None"
  shows "is_object (state t) \<Longrightarrow> ''on'' \<in> set (map fst (state t)) \<Longrightarrow>
         js_get (state t) ''on'' = Bool c \<Longrightarrow>
         js_get (state (fst (run t (map ToggleOp args)))) ''on'' = Bool (c \<noteq> odd (length args))"
  using assms
proof (induction args arbitrary: t c)
  case Nil
  then show ?case by simp
next
  case (Cons a args)
  obtain t' evs where a: "toggle t a = (t', evs)" by (cases "toggle t a")
  then have t': "t' = fst (apply_op t (ToggleOp a))" by simp
  have 1: "is_object (state t')" using Cons.prems(1) by (simp only: t' toggle_is_object)
  have 2: "''on'' \<in> set (map fst (state t'))"
    using Cons.prems(2) by (simp only: t' apply_op_keys)
  have 3: "js_get (state t') ''on'' = Bool (\<not> c)"
    using toggle_on_step [OF Cons.prems(1,2,4,5), of a] Cons.prems(3) by (simp add: a)
  have 4: "props t' = props t" by (simp only: t' apply_op_props)
  have "js_get (state (fst (run t' (map ToggleOp args)))) ''on'' = Bool ((\<not> c) \<noteq> odd (length args))"
    using Cons.IH [OF 1 2 3] Cons.prems(4,5) by (simp add: 4)
  then show ?case by (auto simp: a case_prod_beta)
qed

text \<open>
  C2. On a Toggle constructed with \<^verbatim>\<open>initialOn = b\<close>, the default \<^verbatim>\<open>stateReducer\<close>
  and \<^verbatim>\<open>on\<close> uncontrolled (so in particular when no field is controlled), after \<open>N\<close>
  calls of \<^verbatim>\<open>toggle\<close> (with any arguments) \<^verbatim>\<open>getState().on\<close> is \<open>b XOR (N is odd)\<close>,
  and a \<^verbatim>\<open>reset\<close> after them brings \<^verbatim>\<open>getState().on\<close> back to \<open>b\<close>.
\<close>

theorem toggle_parity_and_reset:
  assumes "\<not> isControlled p ''on''" and "reducer p = None"
    and "props_lookup p ''initialOn'' = Bool b"
  shows "js_get (getState_this (fst (run (new_Toggle p) (map ToggleOp args)))) ''on''
           = Bool (b \<noteq> odd (length args))
       \<and> js_get (getState_this (fst (run (new_Toggle p) (map ToggleOp args @ [ResetOp])))) ''on''
           = Bool b"
proof -
  let ?i = "new_Toggle p"
  let ?t = "fst (run ?i (map ToggleOp args))"
  have p0: "props ?i = p" by (simp add: new_Toggle_def)
  have o0: "is_object (state ?i)" by (simp add: new_Toggle_def initialState_of_def is_object_def)
  have k0: "''on'' \<in> set (map fst (state ?i))" by (simp add: new_Toggle_def initialState_of_def)
  have v0: "js_get (state ?i) ''on'' = Bool b"
    using assms(3) by (simp add: new_Toggle_def initialState_of_def js_get_def)
  have pt: "props ?t = p" by (simp add: run_props p0)
  have kt: "map fst (state ?t) = map fst (state ?i)" by (simp only: run_keys)
  have ot: "is_object (state ?t)" using o0 by (simp only: is_object_def kt)
  have st: "js_get (state ?t) ''on'' = Bool (b \<noteq> odd (length args))"
    using run_toggles_on [OF _ _ o0 k0 v0, of args] assms(1,2) by (simp add: p0)
  have A: "js_get (getState_this ?t) ''on'' = Bool (b \<noteq> odd (length args))"
    using assms(1) ot st by (simp add: getState_this_def pt getState_uncontrolled is_object_def)
  let ?r = "fst (reset ?t)"
  have it: "initialState ?t = initialState_of p" by (simp add: run_initialState new_Toggle_def)
  have r: "js_get (state ?r) ''on'' = Bool b"
    using reset_on_step [of ?t] assms k0 kt
    by (simp add: pt it is_object_def initialState_of_def js_get_def)
  have pr: "props ?r = p" by (simp add: reset_def internalSetState_props pt)
  have kr: "map fst (state ?r) = map fst (state ?t)" by (simp add: reset_def internalSetState_keys)
  have "is_object (state ?r)" using ot by (simp only: is_object_def kr)
  then have B: "js_get (getState_this ?r) ''on'' = Bool b"
    using assms(1) r by (simp add: getState_this_def pr getState_uncontrolled is_object_def)
  have "fst (run ?i (map ToggleOp args @ [ResetOp])) = ?r"
    by (simp add: run_append case_prod_beta)
  with A B show ?thesis by simp
qed

theorem toggle_parity_and_reset_witness:
  "js_get (getState_this
     (fst (run (new_Toggle default_props) (map ToggleOp [None, None, None])))) ''on'' = Bool True
   \<and> js_get (getState_this
     (fst (run (new_Toggle default_props) (map ToggleOp [None, None, None] @ [ResetOp])))) ''on''
       = Bool False"
proof -
  have 1: "\<not> isControlled default_props ''on''"
    by (simp add: isControlled_def props_lookup_def default_props_def js_get_def
          function_props_def)
  have 2: "reducer default_props = None" by (simp add: default_props_def)
  have 3: "props_lookup default_props ''initialOn'' = Bool False"
    by (simp add: props_lookup_def default_props_def js_get_def function_props_def)
  show ?thesis
    using toggle_parity_and_reset [OF 1 2 3, of "[None, None, None]"] by simp
qed

lemma js_get_Nil: "js_get [] k = Undefined"
  by (simp add: js_get_def)

text \<open>
  C3. With the \<^verbatim>\<open>stateReducer\<close> that always returns \<^verbatim>\<open>{on: true, type: changes.type}\<close> and
  \<^verbatim>\<open>on\<close> uncontrolled, \<^verbatim>\<open>getState().on\<close> is \<^verbatim>\<open>true\<close> after one \<^verbatim>\<open>toggle\<close>, from any
  state object that has the field \<^verbatim>\<open>on\<close>, whatever its value: the reducer's record is
  what is written, not the proposed \<^verbatim>\<open>!on\<close>.
\<close>

theorem reducer_forces_on:
  assumes "reducer (props t) = Some always_on_reducer"
    and "\<not> isControlled (props t) ''on''"
    and "is_object (state t)" and "''on'' \<in> set (map fst (state t))"
  shows "js_get (getState_this (fst (toggle t arg))) ''on'' = Bool True"
proof -
  let ?u = "fst (toggle t arg)"
  have c: "allChanges_of (props t) (state t) (toggle_changes arg) =
             [(''on'', Bool True), (''type'', toggle_type arg)]"
    using assms(1)
    by (simp add: allChanges_of_def toggle_changes_def stateReducer_def always_on_reducer_def
          js_get_Cons)
  have s: "js_get (state ?u) ''on'' = Bool True"
    using assms(2,4)
    by (simp add: toggle_def internalSetState_uncontrolled c hasOwnProperty_Cons js_get_Cons)
  have p: "props ?u = props t" by (simp add: toggle_def internalSetState_props)
  have "map fst (state ?u) = map fst (state t)" by (simp add: toggle_def internalSetState_keys)
  then have "distinct (map fst (state ?u))" using assms(3) by (simp add: is_object_def)
  then show ?thesis
    using assms(2) s by (simp add: getState_this_def p getState_uncontrolled)
qed

theorem reducer_forces_on_witness:
  "js_get (getState_this (fst (toggle (new_Toggle always_on_props) None))) ''on'' = Bool True
   \<and> js_get (getState_this
         (fst (toggle (fst (toggle (new_Toggle always_on_props) None)) None))) ''on'' = Bool True"
proof -
  let ?i = "new_Toggle always_on_props"
  let ?u = "fst (toggle ?i None)"
  have 1: "reducer (props ?i) = Some always_on_reducer"
    by (simp add: new_Toggle_def always_on_props_def)
  have 2: "\<not> isControlled (props ?i) ''on''"
    by (simp add: new_Toggle_def isControlled_def props_lookup_def always_on_props_def js_get_def
          function_props_def)
  have 3: "is_object (state ?i)"
    by (simp add: new_Toggle_def initialState_of_def is_object_def)
  have 4: "''on'' \<in> set (map fst (state ?i))"
    by (simp add: new_Toggle_def initialState_of_def)
  have p: "props ?u = props ?i" by (simp add: toggle_def internalSetState_props)
  have k: "map fst (state ?u) = map fst (state ?i)" by (simp add: toggle_def internalSetState_keys)
  have 5: "reducer (props ?u) = Some always_on_reducer" unfolding p by (rule 1)
  have 6: "\<not> isControlled (props ?u) ''on''" unfolding p by (rule 2)
  have 7: "is_object (state ?u)" using 3 unfolding is_object_def k .
  have 8: "''on'' \<in> set (map fst (state ?u))" unfolding k by (rule 4)
  show ?thesis
    using reducer_forces_on [OF 1 2 3 4, of None] reducer_forces_on [OF 5 6 7 8, of None]
    by simp
qed

text \<open>
  C4, as amended. When a field is controlled, \<^verbatim>\<open>toggle\<close> and \<^verbatim>\<open>reset\<close> leave the
  internally tracked value of that field as it was (line 80 keeps controlled keys out of
  the write set), and \<^verbatim>\<open>getState\<close> goes on reading the owner's value for it.
\<close>

theorem controlled_internal_value_kept:
  assumes "isControlled (props t) k"
  shows "map_of (state (fst (toggle t arg))) k = map_of (state t) k
       \<and> map_of (state (fst (reset t))) k = map_of (state t) k
       \<and> (k \<in> set (map fst (state t)) \<longrightarrow>
            js_get (getState_this (fst (toggle t arg))) k = props_lookup (props t) k
          \<and> js_get (getState_this (fst (reset t))) k = props_lookup (props t) k)"
proof -
  have "k \<in> set (map fst (state t)) \<Longrightarrow>
        js_get (getState_this (fst (toggle t arg))) k = props_lookup (props t) k"
    using assms
    by (simp add: getState_this_def toggle_def internalSetState_props internalSetState_keys
          getState_controlled)
  moreover have "k \<in> set (map fst (state t)) \<Longrightarrow>
        js_get (getState_this (fst (reset t))) k = props_lookup (props t) k"
    using assms
    by (simp add: getState_this_def reset_def internalSetState_props internalSetState_keys
          getState_controlled)
  ultimately show ?thesis
    using assms by (simp add: toggle_def reset_def internalSetState_controlled_kept)
qed

theorem controlled_internal_value_kept_witness:
  "map_of (state (fst (toggle (new_Toggle on_false_props) None))) ''on'' = Some (Bool False)
   \<and> map_of (state (fst (reset (new_Toggle on_false_props)))) ''on'' = Some (Bool False)
   \<and> js_get (getState_this (fst (toggle (new_Toggle on_false_props) None))) ''on'' = Bool False
   \<and> js_get (getState_this (fst (reset (new_Toggle on_false_props)))) ''on'' = Bool False"
proof -
  have c: "isControlled (props (new_Toggle on_false_props)) ''on''"
    by (simp add: new_Toggle_def isControlled_def props_lookup_def on_false_props_def js_get_def
          function_props_def)
  have k: "''on'' \<in> set (map fst (state (new_Toggle on_false_props)))"
    by (simp add: new_Toggle_def initialState_of_def)
  have i: "map_of (state (new_Toggle on_false_props)) ''on'' = Some (Bool False)"
    by (simp add: new_Toggle_def initialState_of_def props_lookup_def on_false_props_def
          function_props_def js_get_def)
  have l: "props_lookup (props (new_Toggle on_false_props)) ''on'' = Bool False"
    by (simp add: new_Toggle_def props_lookup_def on_false_props_def
          function_props_def js_get_def)
  show ?thesis
    using controlled_internal_value_kept [OF c, of None] k i l by simp
qed

text \<open>
  The claim as stated fails: with \<^verbatim>\<open>on\<close> controlled at \<^verbatim>\<open>false\<close>, a \<^verbatim>\<open>toggle\<close> reports
  the change \<^verbatim>\<open>on: true\<close> and the internally tracked \<^verbatim>\<open>on\<close> stays \<^verbatim>\<open>false\<close>.
\<close>

theorem controlled_internal_value_counterexample:
  "isControlled (props (new_Toggle on_false_props)) ''on''
   \<and> js_get (allChanges_of on_false_props (state (new_Toggle on_false_props))
               (toggle_changes None)) ''on'' = Bool True
   \<and> js_get (state (new_Toggle on_false_props)) ''on'' = Bool False
   \<and> js_get (state (fst (toggle (new_Toggle on_false_props) None))) ''on'' = Bool False"
proof -
  have c: "isControlled on_false_props ''on''"
    by (simp add: isControlled_def props_lookup_def on_false_props_def js_get_def
          function_props_def)
  have k: "map_of (state (fst (toggle (new_Toggle on_false_props) None))) ''on'' =
           map_of (state (new_Toggle on_false_props)) ''on''"
    using c by (simp add: toggle_def internalSetState_controlled_kept new_Toggle_def)
  have l: "props_lookup on_false_props ''on'' = Bool False"
    by (simp add: props_lookup_def on_false_props_def js_get_def function_props_def)
  have "''on'' \<in> set (map fst (initialState_of on_false_props))"
    by (simp add: initialState_of_def)
  then have g: "js_get (getState on_false_props (initialState_of on_false_props)) ''on'' = Bool False"
    using c l by (simp add: getState_controlled)
  have r: "reducer on_false_props = None" by (simp add: on_false_props_def)
  have a: "js_get (allChanges_of on_false_props (initialState_of on_false_props)
               (toggle_changes None)) ''on'' = Bool True"
    using r g by (simp add: allChanges_of_toggle_default js_get_Cons)
  have i: "js_get (initialState_of on_false_props) ''on'' = Bool False"
    by (simp add: initialState_of_def js_get_Cons js_get_Nil props_lookup_def on_false_props_def
          function_props_def)
  have s: "js_get (state (fst (toggle (new_Toggle on_false_props) None))) ''on'' =
           js_get (state (new_Toggle on_false_props)) ''on''"
    by (simp add: js_get_def k)
  have n: "state (new_Toggle on_false_props) = initialState_of on_false_props"
    and m: "props (new_Toggle on_false_props) = on_false_props"
    by (simp_all add: new_Toggle_def)
  show ?thesis unfolding s unfolding n m using c a i by simp
qed

lemma toggle_events:
  "snd (toggle t arg) =
     [PropCall ''onStateChange''
        [Obj (allChanges_of (props t) (state t) (toggle_changes arg)),
         Obj (state (fst (toggle t arg)))],
      PropCall ''onToggle'' [js_get (getState_this (fst (toggle t arg))) ''on'']]"
  by (simp add: toggle_def internalSetState_snd)

lemma reset_events:
  "snd (reset t) =
     [PropCall ''onStateChange''
        [Obj (allChanges_of (props t) (state t) (reset_changes t)),
         Obj (state (fst (reset t)))],
      PropCall ''onReset'' [js_get (getState_this (fst (reset t))) ''on'']]"
  by (simp add: reset_def internalSetState_snd)

text \<open>
  C7. In every run of \<^verbatim>\<open>internalSetState\<close> the write set has exactly the uncontrolled
  keys of the current internal state; for each of them the value written is the value of
  the authoritative change record when the record has the key, and the value of the
  combined state otherwise, and that value is the field's internal value afterwards; a
  controlled key is not in the write set and its internal value is as before.
\<close>

theorem write_set_frame:
  "set (map fst (stateToSet (props t) (state t) chg)) =
     {k \<in> set (map fst (state t)). \<not> isControlled (props t) k}
   \<and> (\<forall>k. k \<in> set (map fst (state t)) \<and> \<not> isControlled (props t) k \<longrightarrow>
          js_get (stateToSet (props t) (state t) chg) k =
            (if hasOwnProperty (allChanges_of (props t) (state t) chg) k
             then js_get (allChanges_of (props t) (state t) chg) k
             else js_get (getState (props t) (state t)) k)
        \<and> js_get (state (fst (internalSetState t chg cb))) k =
            js_get (stateToSet (props t) (state t) chg) k)
   \<and> (\<forall>k. isControlled (props t) k \<longrightarrow>
          \<not> hasOwnProperty (stateToSet (props t) (state t) chg) k
        \<and> map_of (state (fst (internalSetState t chg cb))) k = map_of (state t) k)"
proof -
  have a: "set (map fst (stateToSet (props t) (state t) chg)) =
             {k \<in> set (map fst (state t)). \<not> isControlled (props t) k}"
    unfolding stateToSet_def by (rule removeControlled_key_set)
  have b: "js_get (stateToSet (props t) (state t) chg) k =
            (if hasOwnProperty (allChanges_of (props t) (state t) chg) k
             then js_get (allChanges_of (props t) (state t) chg) k
             else js_get (getState (props t) (state t)) k)"
    if "k \<in> set (map fst (state t))" and "\<not> isControlled (props t) k" for k
    using that by (simp add: js_get_def stateToSet_lookup)
  have c: "js_get (state (fst (internalSetState t chg cb))) k =
            js_get (stateToSet (props t) (state t) chg) k"
    if "k \<in> set (map fst (state t))" and "\<not> isControlled (props t) k" for k
    using that by (simp add: internalSetState_uncontrolled b)
  have d: "\<not> hasOwnProperty (stateToSet (props t) (state t) chg) k"
    if "isControlled (props t) k" for k
    using that by (simp add: hasOwnProperty_lookup stateToSet_lookup)
  have e: "map_of (state (fst (internalSetState t chg cb))) k = map_of (state t) k"
    if "isControlled (props t) k" for k
    using that by (rule internalSetState_controlled_kept)
  from a b c d e show ?thesis by blast
qed

theorem write_set_frame_witness:
  "set (map fst (stateToSet (props (new_Toggle on_false_props))
          (state (new_Toggle on_false_props)) (Literal [(''on'', Bool True)]))) =
     {''toggle'', ''reset'', ''getTogglerProps''}
   \<and> js_get (state (fst (internalSetState (new_Toggle on_false_props)
                 (Literal [(''on'', Bool True)]) (\<lambda>t. [])))) ''toggle'' = Fn Toggle_toggle
   \<and> map_of (state (fst (internalSetState (new_Toggle on_false_props)
                 (Literal [(''on'', Bool True)]) (\<lambda>t. [])))) ''on'' = Some (Bool False)"
proof -
  let ?i = "new_Toggle on_false_props"
  let ?c = "Literal [(''on'', Bool True)]"
  have n: "state ?i = initialState_of on_false_props" and m: "props ?i = on_false_props"
    by (simp_all add: new_Toggle_def)
  have ctl: "\<And>k. isControlled on_false_props k =
               (k \<in> set function_props \<or> k = ''initialOn'' \<or> k = ''on'')"
    by (auto simp: isControlled_def props_lookup_def on_false_props_def js_get_Cons js_get_Nil)
  have k: "{k \<in> set (map fst (state ?i)). \<not> isControlled (props ?i) k} =
           {''toggle'', ''reset'', ''getTogglerProps''}"
    unfolding n m by (auto simp: initialState_of_def ctl function_props_def)
  have r: "reducer on_false_props = None" by (simp add: on_false_props_def)
  have d: "distinct (map fst (initialState_of on_false_props))"
    by (simp add: initialState_of_def)
  have "js_get (initialState_of on_false_props) ''toggle'' = Fn Toggle_toggle"
    by (simp add: initialState_of_def js_get_Cons)
  then have g: "js_get (getState (props ?i) (state ?i)) ''toggle'' = Fn Toggle_toggle"
    unfolding n m using d by (simp add: getState_uncontrolled ctl function_props_def)
  have h: "\<not> hasOwnProperty (allChanges_of (props ?i) (state ?i) ?c) ''toggle''"
    unfolding n m by (simp add: allChanges_of_def stateReducer_def r hasOwnProperty_def)
  have t: "''toggle'' \<in> set (map fst (state ?i)) \<and> \<not> isControlled (props ?i) ''toggle''"
    unfolding n m by (simp add: initialState_of_def ctl function_props_def)
  have o: "isControlled (props ?i) ''on''" unfolding m by (simp add: ctl)
  have v: "map_of (state ?i) ''on'' = Some (Bool False)"
    unfolding n
    by (simp add: initialState_of_def props_lookup_def on_false_props_def function_props_def
          js_get_Cons js_get_Nil)
  show ?thesis
    using write_set_frame [of ?i ?c "\<lambda>t. []"] k g h t o v by simp
qed

lemma toggle_type_default:
  "(case arg of None \<Rightarrow> True | Some a \<Rightarrow> js_get a ''type'' = Undefined) \<Longrightarrow>
   toggle_type arg = Str ''__toggle_toggle__''"
  by (simp add: toggle_type_def stateChangeTypes_toggle_def split: option.splits)

lemma allChanges_of_toggle:
  "allChanges_of p st (toggle_changes arg) =
     stateReducer p (getState p st)
       [(''type'', toggle_type arg), (''on'', Bool (\<not> truthy (js_get (getState p st) ''on'')))]"
  by (simp add: allChanges_of_def toggle_changes_def Let_def)

lemma allChanges_of_reset:
  "allChanges_of (props t) st (reset_changes t) =
     stateReducer (props t) (getState (props t) st)
       (AList.update ''type'' (Str stateChangeTypes_reset) (Object_assign [] (initialState t)))"
  by (simp add: allChanges_of_def reset_changes_def Let_def)

text \<open>
  C5, as amended. The record \<^verbatim>\<open>onStateChange\<close> receives is what the \<^verbatim>\<open>stateReducer\<close>
  returned: for a \<^verbatim>\<open>toggle\<close> without a type override, its value on the proposed record
  \<^verbatim>\<open>{type: '__toggle_toggle__', on: !on}\<close>, and for a \<^verbatim>\<open>reset\<close> its value on
  \<^verbatim>\<open>{...initialState, type: '__toggle_reset__'}\<close>. Whenever the reducer passes \<^verbatim>\<open>type\<close>
  through, the record's \<^verbatim>\<open>type\<close> is exactly \<^verbatim>\<open>Toggle.stateChangeTypes.toggle\<close>, the
  string \<^verbatim>\<open>'__toggle_toggle__'\<close>, for \<^verbatim>\<open>toggle\<close> and \<^verbatim>\<open>'__toggle_reset__'\<close> for
  \<^verbatim>\<open>reset\<close>; whenever the reducer keeps \<^verbatim>\<open>on\<close>, the record has the field \<^verbatim>\<open>on\<close>,
  whether or not \<^verbatim>\<open>on\<close> is controlled (for \<^verbatim>\<open>reset\<close>: as the initial state has it).
  The default reducer does both and returns the proposed record itself.
\<close>

theorem onStateChange_record_is_reducer_output:
  assumes "case arg of None \<Rightarrow> True | Some a \<Rightarrow> js_get a ''type'' = Undefined"
  shows "snd (toggle t arg) =
           [PropCall ''onStateChange''
              [Obj (stateReducer (props t) (getState_this t)
                      [(''type'', Str ''__toggle_toggle__''),
                       (''on'', Bool (\<not> truthy (js_get (getState_this t) ''on'')))]),
               Obj (state (fst (toggle t arg)))],
            PropCall ''onToggle'' [js_get (getState_this (fst (toggle t arg))) ''on'']]
       \<and> snd (reset t) =
           [PropCall ''onStateChange''
              [Obj (stateReducer (props t) (getState_this t)
                      (AList.update ''type'' (Str ''__toggle_reset__'')
                         (Object_assign [] (initialState t)))),
               Obj (state (fst (reset t)))],
            PropCall ''onReset'' [js_get (getState_this (fst (reset t))) ''on'']]
       \<and> ((\<forall>c. js_get (stateReducer (props t) (getState_this t) c) ''type'' = js_get c ''type'') \<longrightarrow>
            js_get (stateReducer (props t) (getState_this t)
                      [(''type'', Str ''__toggle_toggle__''),
                       (''on'', Bool (\<not> truthy (js_get (getState_this t) ''on'')))]) ''type''
              = Str ''__toggle_toggle__''
          \<and> js_get (stateReducer (props t) (getState_this t)
                      (AList.update ''type'' (Str ''__toggle_reset__'')
                         (Object_assign [] (initialState t)))) ''type''
              = Str ''__toggle_reset__'')
       \<and> ((\<forall>c. hasOwnProperty c ''on'' \<longrightarrow>
                hasOwnProperty (stateReducer (props t) (getState_this t) c) ''on'') \<longrightarrow>
            hasOwnProperty (stateReducer (props t) (getState_this t)
                      [(''type'', Str ''__toggle_toggle__''),
                       (''on'', Bool (\<not> truthy (js_get (getState_this t) ''on'')))]) ''on''
          \<and> (hasOwnProperty (initialState t) ''on'' \<longrightarrow>
               hasOwnProperty (stateReducer (props t) (getState_this t)
                      (AList.update ''type'' (Str ''__toggle_reset__'')
                         (Object_assign [] (initialState t)))) ''on''))
       \<and> (reducer (props t) = None \<longrightarrow>
            stateReducer (props t) (getState_this t)
              [(''type'', Str ''__toggle_toggle__''),
               (''on'', Bool (\<not> truthy (js_get (getState_this t) ''on'')))]
              = [(''type'', Str ''__toggle_toggle__''),
                 (''on'', Bool (\<not> truthy (js_get (getState_this t) ''on'')))]
          \<and> stateReducer (props t) (getState_this t)
              (AList.update ''type'' (Str ''__toggle_reset__'') (Object_assign [] (initialState t)))
              = AList.update ''type'' (Str ''__toggle_reset__'') (Object_assign [] (initialState t)))"
proof -
  let ?tog = "[(''type'', Str ''__toggle_toggle__''),
               (''on'', Bool (\<not> truthy (js_get (getState_this t) ''on'')))]"
  let ?res = "AList.update ''type'' (Str ''__toggle_reset__'') (Object_assign [] (initialState t))"
  let ?r = "stateReducer (props t) (getState_this t)"
  have a: "allChanges_of (props t) (state t) (toggle_changes arg) = ?r ?tog"
    using assms by (simp add: allChanges_of_toggle toggle_type_default getState_this_def)
  have b: "allChanges_of (props t) (state t) (reset_changes t) = ?r ?res"
    by (simp add: allChanges_of_reset stateChangeTypes_reset_def getState_this_def)
  have c: "js_get ?tog ''type'' = Str ''__toggle_toggle__''" by (simp add: js_get_Cons)
  have d: "js_get ?res ''type'' = Str ''__toggle_reset__''"
    by (simp add: js_get_def AList.update_conv')
  have e: "hasOwnProperty ?tog ''on''" by (simp add: hasOwnProperty_Cons)
  have f: "hasOwnProperty (initialState t) ''on'' \<longrightarrow> hasOwnProperty ?res ''on''"
    by (simp add: hasOwnProperty_def [of "initialState t"] spread_has)
  have 1: "snd (toggle t arg) =
           [PropCall ''onStateChange'' [Obj (?r ?tog), Obj (state (fst (toggle t arg)))],
            PropCall ''onToggle'' [js_get (getState_this (fst (toggle t arg))) ''on'']]"
    unfolding toggle_events a ..
  have 2: "snd (reset t) =
           [PropCall ''onStateChange'' [Obj (?r ?res), Obj (state (fst (reset t)))],
            PropCall ''onReset'' [js_get (getState_this (fst (reset t))) ''on'']]"
    unfolding reset_events b ..
  have 3: "(\<forall>c. js_get (?r c) ''type'' = js_get c ''type'') \<longrightarrow>
             js_get (?r ?tog) ''type'' = Str ''__toggle_toggle__''
           \<and> js_get (?r ?res) ''type'' = Str ''__toggle_reset__''"
    using c d by simp
  have 4: "(\<forall>c. hasOwnProperty c ''on'' \<longrightarrow> hasOwnProperty (?r c) ''on'') \<longrightarrow>
             hasOwnProperty (?r ?tog) ''on''
           \<and> (hasOwnProperty (initialState t) ''on'' \<longrightarrow> hasOwnProperty (?r ?res) ''on'')"
    using e f by blast
  have 5: "reducer (props t) = None \<longrightarrow> ?r ?tog = ?tog \<and> ?r ?res = ?res"
    by (simp add: stateReducer_def)
  from 1 2 3 4 5 show ?thesis by blast
qed

theorem onStateChange_record_is_reducer_output_witness:
  "isControlled (props (new_Toggle on_true_always_on_props)) ''on''
   \<and> snd (toggle (new_Toggle on_true_always_on_props) None) =
       [PropCall ''onStateChange''
          [Obj [(''on'', Bool True), (''type'', Str ''__toggle_toggle__'')],
           Obj (state (fst (toggle (new_Toggle on_true_always_on_props) None)))],
        PropCall ''onToggle''
          [js_get (getState_this (fst (toggle (new_Toggle on_true_always_on_props) None))) ''on'']]
   \<and> js_get (stateReducer (props (new_Toggle on_true_always_on_props))
                (getState_this (new_Toggle on_true_always_on_props))
                (AList.update ''type'' (Str ''__toggle_reset__'')
                   (Object_assign [] (initialState (new_Toggle on_true_always_on_props))))) ''type''
       = Str ''__toggle_reset__''
   \<and> hasOwnProperty (stateReducer (props (new_Toggle on_true_always_on_props))
                (getState_this (new_Toggle on_true_always_on_props))
                (AList.update ''type'' (Str ''__toggle_reset__'')
                   (Object_assign [] (initialState (new_Toggle on_true_always_on_props))))) ''on''"
proof -
  let ?i = "new_Toggle on_true_always_on_props"
  have 1: "case None :: obj option of None \<Rightarrow> True | Some a \<Rightarrow> js_get a ''type'' = Undefined"
    by simp
  have r: "stateReducer (props ?i) = always_on_reducer"
    by (simp add: stateReducer_def new_Toggle_def on_true_always_on_props_def)
  have 2: "\<forall>c. js_get (stateReducer (props ?i) (getState_this ?i) c) ''type'' = js_get c ''type''"
    by (simp add: r always_on_reducer_def js_get_Cons)
  have 3: "\<forall>c. hasOwnProperty c ''on'' \<longrightarrow>
               hasOwnProperty (stateReducer (props ?i) (getState_this ?i) c) ''on''"
    by (simp add: r always_on_reducer_def hasOwnProperty_Cons)
  have c: "isControlled (props ?i) ''on''"
    by (simp add: new_Toggle_def isControlled_def props_lookup_def on_true_always_on_props_def
          function_props_def js_get_Cons)
  have h: "hasOwnProperty (initialState ?i) ''on''"
    by (simp add: new_Toggle_def initialState_of_def hasOwnProperty_Cons)
  have o: "stateReducer (props ?i) (getState_this ?i)
             [(''type'', Str ''__toggle_toggle__''),
              (''on'', Bool (\<not> truthy (js_get (getState_this ?i) ''on'')))]
           = [(''on'', Bool True), (''type'', Str ''__toggle_toggle__'')]"
    by (simp add: r always_on_reducer_def js_get_Cons)
  show ?thesis
    using onStateChange_record_is_reducer_output [OF 1, of ?i] 2 3 c h o by simp
qed

text \<open>
  The claim as stated fails on the default configuration, where the type handed to
  \<^verbatim>\<open>onStateChange\<close> is \<^verbatim>\<open>'__toggle_toggle__'\<close> and not \<^verbatim>\<open>'toggle'\<close>; and with a
  \<^verbatim>\<open>stateReducer\<close> that returns \<^verbatim>\<open>{}\<close> the record has neither \<^verbatim>\<open>type\<close> nor \<^verbatim>\<open>on\<close>.
\<close>

theorem onStateChange_record_counterexample:
  "snd (toggle (new_Toggle default_props) None) =
     [PropCall ''onStateChange''
        [Obj [(''type'', Str ''__toggle_toggle__''), (''on'', Bool True)],
         Obj [(''on'', Bool True), (''toggle'', Fn Toggle_toggle), (''reset'', Fn Toggle_reset),
              (''getTogglerProps'', Fn Toggle_getTogglerProps)]],
      PropCall ''onToggle'' [Bool True]]
   \<and> js_get [(''type'', Str ''__toggle_toggle__''), (''on'', Bool True)] ''type'' \<noteq> Str ''toggle''
   \<and> snd (toggle (new_Toggle discarding_props) None) =
     [PropCall ''onStateChange''
        [Obj [],
         Obj [(''on'', Bool False), (''toggle'', Fn Toggle_toggle), (''reset'', Fn Toggle_reset),
              (''getTogglerProps'', Fn Toggle_getTogglerProps)]],
      PropCall ''onToggle'' [Bool False]]"
  by (simp add: toggle_def internalSetState_def setState_def stateToSet_def removeControlled_def
        allChanges_of_def getState_def getState_this_def toggle_changes_def toggle_type_def
        stateChangeTypes_toggle_def stateReducer_def new_Toggle_def initialState_of_def
        default_props_def discarding_props_def isControlled_def props_lookup_def
        function_props_def js_get_def hasOwnProperty_def Object_assign_def Let_def)

text \<open>
  C8. In 12.js the callbacks of \<^verbatim>\<open>toggle\<close> and \<^verbatim>\<open>reset\<close> hand \<^verbatim>\<open>this.getState().on\<close>
  to \<^verbatim>\<open>onToggle\<close> and \<^verbatim>\<open>onReset\<close> (\<open>toggle_events\<close>, \<open>reset_events\<close>). The Toggle of
  \<^verbatim>\<open>src/unnamed/part_000\<close> hands them the whole combined state: on the default
  configuration \<^verbatim>\<open>onToggle\<close> receives an object where 12.js passes \<^verbatim>\<open>true\<close>.
\<close>

theorem onToggle_payload_part_000:
  "snd (toggle_part_000 (new_Toggle default_props) None) =
     [PropCall ''onStateChange''
        [Obj [(''type'', Str ''__toggle_toggle__''), (''on'', Bool True)],
         Obj [(''on'', Bool True), (''toggle'', Fn Toggle_toggle), (''reset'', Fn Toggle_reset),
              (''getTogglerProps'', Fn Toggle_getTogglerProps)]],
      PropCall ''onToggle''
        [Obj [(''on'', Bool True), (''toggle'', Fn Toggle_toggle), (''reset'', Fn Toggle_reset),
              (''getTogglerProps'', Fn Toggle_getTogglerProps)]]]
   \<and> snd (reset_part_000 (new_Toggle default_props)) =
     [PropCall ''onStateChange''
        [Obj [(''on'', Bool False), (''toggle'', Fn Toggle_toggle), (''reset'', Fn Toggle_reset),
              (''getTogglerProps'', Fn Toggle_getTogglerProps), (''type'', Str ''__toggle_reset__'')],
         Obj [(''on'', Bool False), (''toggle'', Fn Toggle_toggle), (''reset'', Fn Toggle_reset),
              (''getTogglerProps'', Fn Toggle_getTogglerProps)]],
      PropCall ''onReset''
        [Obj [(''on'', Bool False), (''toggle'', Fn Toggle_toggle), (''reset'', Fn Toggle_reset),
              (''getTogglerProps'', Fn Toggle_getTogglerProps)]]]
   \<and> snd (toggle (new_Toggle default_props) None) =
     [PropCall ''onStateChange''
        [Obj [(''type'', Str ''__toggle_toggle__''), (''on'', Bool True)],
         Obj [(''on'', Bool True), (''toggle'', Fn Toggle_toggle), (''reset'', Fn Toggle_reset),
              (''getTogglerProps'', Fn Toggle_getTogglerProps)]],
      PropCall ''onToggle'' [Bool True]]"
  by (simp add: toggle_part_000_def reset_part_000_def toggle_def internalSetState_def setState_def
        stateToSet_def removeControlled_def reset_changes_def stateChangeTypes_reset_def
        allChanges_of_def getState_def getState_this_def toggle_changes_def toggle_type_def
        stateChangeTypes_toggle_def stateReducer_def new_Toggle_def initialState_of_def
        default_props_def isControlled_def props_lookup_def
        function_props_def js_get_def hasOwnProperty_def Object_assign_def Let_def)

subsection \<open>The descriptor of getTogglerProps\<close>







subsection \<open>The props enter only through their lookups\<close>

lemma isControlled_cong: "props_lookup p = props_lookup q \<Longrightarrow> isControlled p = isControlled q"
  by (simp add: isControlled_def fun_eq_iff)

lemma getState_cong:
  assumes "props_lookup p = props_lookup q"
  shows "getState p = getState q"
proof
  fix st
  show "getState p st = getState q st"
    unfolding getState_def isControlled_cong [OF assms] assms ..
qed

lemma stateReducer_cong: "reducer p = reducer q \<Longrightarrow> stateReducer p = stateReducer q"
  by (simp add: stateReducer_def)

lemma allChanges_of_cong:
  "props_lookup p = props_lookup q \<Longrightarrow> reducer p = reducer q \<Longrightarrow>
   allChanges_of p = allChanges_of q"
  by (simp add: allChanges_of_def fun_eq_iff getState_cong [of p q] stateReducer_cong [of p q])

lemma stateToSet_cong:
  "props_lookup p = props_lookup q \<Longrightarrow> reducer p = reducer q \<Longrightarrow>
   stateToSet p = stateToSet q"
  by (simp add: stateToSet_def removeControlled_def fun_eq_iff getState_cong [of p q]
        allChanges_of_cong [of p q] isControlled_cong [of p q])

lemma apply_op_cong:
  assumes "props_lookup (props t) = props_lookup (props u)"
    and "reducer (props t) = reducer (props u)"
    and "state t = state u" and "initialState t = initialState u"
  shows "state (fst (apply_op t x)) = state (fst (apply_op u x))
       \<and> snd (apply_op t x) = snd (apply_op u x)"
proof -
  note c = getState_cong [OF assms(1)] allChanges_of_cong [OF assms(1,2)]
    stateToSet_cong [OF assms(1,2)]
  have s: "state (fst (internalSetState t chg cb)) = state (fst (internalSetState u chg cb'))"
    for chg cb cb'
    by (simp add: internalSetState_fst c assms(3))
  have r: "reset_changes t = reset_changes u" by (simp add: reset_changes_def assms(4))
  show ?thesis
  proof (cases x)
    case (ToggleOp arg)
    have "state (fst (toggle t arg)) = state (fst (toggle u arg))"
      unfolding toggle_def by (rule s)
    moreover have "props (fst (toggle t arg)) = props t" "props (fst (toggle u arg)) = props u"
      by (simp_all add: toggle_def internalSetState_props)
    ultimately show ?thesis
      by (simp add: ToggleOp toggle_events getState_this_def c assms(3))
  next
    case ResetOp
    have "state (fst (reset t)) = state (fst (reset u))"
      unfolding reset_def r by (rule s)
    moreover have "props (fst (reset t)) = props t" "props (fst (reset u)) = props u"
      by (simp_all add: reset_def internalSetState_props)
    ultimately show ?thesis
      by (simp add: ResetOp reset_events getState_this_def c assms(3) r)
  qed
qed

lemma run_cong:
  "props_lookup (props t) = props_lookup (props u) \<Longrightarrow>
   reducer (props t) = reducer (props u) \<Longrightarrow>
   state t = state u \<Longrightarrow> initialState t = initialState u \<Longrightarrow>
   state (fst (run t xs)) = state (fst (run u xs)) \<and> snd (run t xs) = snd (run u xs)"
proof (induction xs arbitrary: t u)
  case Nil
  then show ?case by simp
next
  case (Cons x xs)
  let ?t = "fst (apply_op t x)" and ?u = "fst (apply_op u x)"
  have a: "state ?t = state ?u" "snd (apply_op t x) = snd (apply_op u x)"
    using apply_op_cong [OF Cons.prems, of x] by simp_all
  have "state (fst (run ?t xs)) = state (fst (run ?u xs)) \<and> snd (run ?t xs) = snd (run ?u xs)"
    using Cons.prems a(1) by (intro Cons.IH) (simp_all add: apply_op_props apply_op_initialState)
  then show ?case by (simp add: case_prod_beta a(2))
qed

lemma js_get_explicit_undefined:
  "\<not> hasOwnProperty ob a \<Longrightarrow> js_get ((a, Undefined) # ob) k = js_get ob k"
  by (simp add: js_get_def hasOwnProperty_lookup)

lemma new_Toggle_run_facts:
  "props (fst (run (new_Toggle p) ops)) = p
   \<and> is_object (state (fst (run (new_Toggle p) ops)))
   \<and> ''on'' \<in> set (map fst (state (fst (run (new_Toggle p) ops))))"
proof -
  have k: "map fst (state (fst (run (new_Toggle p) ops))) = map fst (initialState_of p)"
    by (simp add: run_keys new_Toggle_def)
  have "props (fst (run (new_Toggle p) ops)) = p" by (simp add: run_props new_Toggle_def)
  moreover have "is_object (state (fst (run (new_Toggle p) ops)))"
    unfolding is_object_def k by (simp add: initialState_of_def)
  moreover have "''on'' \<in> set (map fst (state (fst (run (new_Toggle p) ops))))"
    unfolding k by (simp add: initialState_of_def)
  ultimately show ?thesis by simp
qed

text \<open>
  C10, as amended. Each field of the state (\<^verbatim>\<open>on\<close>, \<^verbatim>\<open>toggle\<close>, \<^verbatim>\<open>reset\<close>,
  \<^verbatim>\<open>getTogglerProps\<close>: the names \<^verbatim>\<open>isControlled\<close> is called with) is controlled exactly
  when the value the owner supplied for it is not \<^verbatim>\<open>undefined\<close>. An owner who passes
  \<^verbatim>\<open>on: undefined\<close> explicitly gets an uncontrolled \<^verbatim>\<open>on\<close>: after every sequence of
  \<^verbatim>\<open>toggle\<close> and \<^verbatim>\<open>reset\<close> calls \<^verbatim>\<open>getState().on\<close> is the internally tracked value,
  and with the default reducer a further \<^verbatim>\<open>toggle\<close> negates the internal value and the
  value \<^verbatim>\<open>getState\<close> reads. The Toggle behaves as the one constructed without \<^verbatim>\<open>on\<close>:
  the internal state, the callbacks made and the combined state are the same.
\<close>

theorem isControlled_state_fields_and_undefined_on:
  assumes "\<not> hasOwnProperty (supplied p) ''on''"
    and "q = p\<lparr>supplied := (''on'', Undefined) # supplied p\<rparr>"
  shows "(\<forall>k \<in> set (map fst (initialState_of r)).
            isControlled r k = (js_get (supplied r) k \<noteq> Undefined))
       \<and> \<not> isControlled q ''on''
       \<and> js_get (getState_this (fst (run (new_Toggle q) ops))) ''on''
           = js_get (state (fst (run (new_Toggle q) ops))) ''on''
       \<and> (reducer p = None \<longrightarrow>
            js_get (state (fst (toggle (fst (run (new_Toggle q) ops)) arg))) ''on''
              = Bool (\<not> truthy (js_get (state (fst (run (new_Toggle q) ops))) ''on''))
          \<and> js_get (getState_this (fst (toggle (fst (run (new_Toggle q) ops)) arg))) ''on''
              = Bool (\<not> truthy (js_get (getState_this (fst (run (new_Toggle q) ops))) ''on'')))
       \<and> state (fst (run (new_Toggle q) ops)) = state (fst (run (new_Toggle p) ops))
       \<and> snd (run (new_Toggle q) ops) = snd (run (new_Toggle p) ops)
       \<and> getState_this (fst (run (new_Toggle q) ops)) = getState_this (fst (run (new_Toggle p) ops))"
proof -
  let ?u = "fst (run (new_Toggle q) ops)"
  have a: "\<forall>k \<in> set (map fst (initialState_of r)).
            isControlled r k = (js_get (supplied r) k \<noteq> Undefined)"
    by (simp add: isControlled_def state_field_lookup)
  have g: "js_get (supplied q) k = js_get (supplied p) k" for k
    using assms by (simp add: js_get_explicit_undefined)
  have l: "props_lookup q = props_lookup p"
    by (rule ext) (auto simp: props_lookup_def g)
  have rd: "reducer q = reducer p" using assms(2) by simp
  have "js_get (supplied p) ''on'' = Undefined"
    using assms(1) by (simp add: js_get_def hasOwnProperty_lookup)
  then have b: "\<not> isControlled q ''on''"
    by (simp add: isControlled_def l props_lookup_def function_props_def)
  have pu: "props ?u = q" and ou: "is_object (state ?u)"
    and ku: "''on'' \<in> set (map fst (state ?u))"
    using new_Toggle_run_facts [of q ops] by simp_all
  have au: "js_get (getState_this ?u) ''on'' = js_get (state ?u) ''on''"
    using b ou by (simp add: getState_this_def pu getState_uncontrolled is_object_def)
  have adv: "js_get (state (fst (toggle ?u arg))) ''on''
              = Bool (\<not> truthy (js_get (state ?u) ''on''))
          \<and> js_get (getState_this (fst (toggle ?u arg))) ''on''
              = Bool (\<not> truthy (js_get (getState_this ?u) ''on''))"
    if n: "reducer p = None"
  proof -
    have s: "js_get (state (fst (toggle ?u arg))) ''on''
              = Bool (\<not> truthy (js_get (state ?u) ''on''))"
      by (rule toggle_on_step [OF ou ku]) (simp_all add: pu b rd n)
    have "fst (toggle ?u arg) = fst (run (new_Toggle q) (ops @ [ToggleOp arg]))"
      by (simp add: run_append case_prod_beta)
    then have "props (fst (toggle ?u arg)) = q"
      and "is_object (state (fst (toggle ?u arg)))"
      using new_Toggle_run_facts [of q "ops @ [ToggleOp arg]"] by simp_all
    then have "js_get (getState_this (fst (toggle ?u arg))) ''on''
                = js_get (state (fst (toggle ?u arg))) ''on''"
      using b by (simp add: getState_this_def getState_uncontrolled is_object_def)
    with s au show ?thesis by simp
  qed
  have i: "initialState_of q = initialState_of p" by (simp add: initialState_of_def l)
  have c: "state ?u = state (fst (run (new_Toggle p) ops))
         \<and> snd (run (new_Toggle q) ops) = snd (run (new_Toggle p) ops)"
    by (rule run_cong) (simp_all add: new_Toggle_def l rd i)
  have d: "getState_this ?u = getState_this (fst (run (new_Toggle p) ops))"
    using c by (simp add: getState_this_def run_props new_Toggle_def getState_cong [OF l])
  from a b au adv c d show ?thesis by blast
qed

theorem isControlled_state_fields_and_undefined_on_witness:
  "\<not> isControlled on_undefined_props ''on''
   \<and> js_get (state (fst (toggle (new_Toggle on_undefined_props) None))) ''on'' = Bool True
   \<and> js_get (getState_this (fst (toggle (new_Toggle on_undefined_props) None))) ''on'' = Bool True
   \<and> getState_this (fst (run (new_Toggle on_undefined_props) []))
       = getState_this (fst (run (new_Toggle default_props) []))
   \<and> (isControlled on_true_props ''on'' = (js_get (supplied on_true_props) ''on'' \<noteq> Undefined))"
proof -
  have 1: "\<not> hasOwnProperty (supplied default_props) ''on''"
    by (simp add: default_props_def hasOwnProperty_def)
  have 2: "on_undefined_props =
           default_props\<lparr>supplied := (''on'', Undefined) # supplied default_props\<rparr>"
    by (simp add: default_props_def on_undefined_props_def)
  have 3: "reducer default_props = None" by (simp add: default_props_def)
  have 4: "js_get (state (new_Toggle on_undefined_props)) ''on'' = Bool False"
    by (simp add: new_Toggle_def initialState_of_def props_lookup_def on_undefined_props_def
          function_props_def js_get_Cons js_get_Nil)
  have 5: "''on'' \<in> set (map fst (initialState_of on_true_props))"
    by (simp add: initialState_of_def)
  note T = isControlled_state_fields_and_undefined_on [OF 1 2, of on_true_props "[]" None]
  let ?i = "new_Toggle on_undefined_props"
  have r: "fst (run t []) = t" for t :: component by simp
  have a: "isControlled on_true_props ''on'' = (js_get (supplied on_true_props) ''on'' \<noteq> Undefined)"
    using T [THEN conjunct1] 5 by blast
  have b: "\<not> isControlled on_undefined_props ''on''"
    by (rule T [THEN conjunct2, THEN conjunct1])
  have c: "js_get (getState_this ?i) ''on'' = Bool False"
    using T [THEN conjunct2, THEN conjunct2, THEN conjunct1] unfolding r 4 .
  have d: "js_get (state (fst (toggle ?i None))) ''on'' = Bool (\<not> truthy (Bool False))
         \<and> js_get (getState_this (fst (toggle ?i None))) ''on'' = Bool (\<not> truthy (Bool False))"
    using T [THEN conjunct2, THEN conjunct2, THEN conjunct2, THEN conjunct1, rule_format, OF 3]
    unfolding r 4 c .
  have e: "getState_this (fst (run ?i [])) = getState_this (fst (run (new_Toggle default_props) []))"
    by (rule T [THEN conjunct2, THEN conjunct2, THEN conjunct2, THEN conjunct2, THEN conjunct2,
                 THEN conjunct2])
  from a b d e show ?thesis by simp
qed

text \<open>
  The claim as stated fails for a name that has an entry in \<^verbatim>\<open>defaultProps\<close>: the owner
  supplies no \<^verbatim>\<open>initialOn\<close>, React fills in \<^verbatim>\<open>false\<close>, and \<^verbatim>\<open>isControlled('initialOn')\<close>
  is true.
\<close>

theorem isControlled_default_prop_counterexample:
  "isControlled default_props ''initialOn''
   \<and> js_get (supplied default_props) ''initialOn'' = Undefined"
  by (simp add: isControlled_def props_lookup_def default_props_def function_props_def js_get_def)

end
